theory Spec2Isabelle
  imports Complex_Main "HOL-Library.Multiset" "HOL-Library.Char_ord"
    "HOL-Library.List_Lexorder" "HOL-Library.Product_Lexorder"
begin

section \<open>JavaScript values shared by the client and the server\<close>

text \<open>
  A JavaScript string is a sequence of UTF-16 code units. The code units are kept as
  numbers, because \<^verbatim>\<open>String.prototype.trim\<close> strips white space that lies beyond
  Latin-1. String literals of the source are ASCII and are written with \<open>js\<close>.
\<close>

type_synonym jsstring = "nat list"

definition js :: "string \<Rightarrow> jsstring" where
  "js s = map of_char s"

text \<open>
  A JSON value as \<^verbatim>\<open>JSON.parse\<close> delivers it and \<^verbatim>\<open>JSON.stringify\<close> writes it.
  Numbers are reals (every finite double is one). The JavaScript value
  \<^verbatim>\<open>undefined\<close> is not JSON: an expression that may be undefined has type
  \<open>json option\<close>, with \<open>None\<close> for undefined.
\<close>

datatype json =
    JNull
  | JBool bool
  | JNum real
  | JStr jsstring
  | JArr "json list"
  | JObj "(string \<times> json) list"

text \<open>
  Reading a property: an absent property, and any property of a non-object, is undefined.
  A parsed object has each key once.
\<close>

fun field :: "json \<Rightarrow> string \<Rightarrow> json option" where
  "field (JObj kvs) k = map_of kvs k"
| "field _ k = None"

text \<open>JavaScript truthiness, as \<^verbatim>\<open>!x\<close> and \<^verbatim>\<open>x || y\<close> test it.\<close>

fun truthy :: "json option \<Rightarrow> bool" where
  "truthy None = False"
| "truthy (Some JNull) = False"
| "truthy (Some (JBool b)) = b"
| "truthy (Some (JNum x)) = (x \<noteq> 0)"
| "truthy (Some (JStr s)) = (s \<noteq> [])"
| "truthy (Some (JArr _)) = True"
| "truthy (Some (JObj _)) = True"

definition js_or :: "json option \<Rightarrow> json option \<Rightarrow> json option" where
  "js_or a b = (if truthy a then a else b)"

text \<open>An object literal sent as JSON: properties whose value is undefined are left out.\<close>

definition json_object :: "(string \<times> json option) list \<Rightarrow> json" where
  "json_object kvs = JObj (List.map_filter (\<lambda>(k, v). map_option (Pair k) v) kvs)"

text \<open>
  The white space and line terminators of ECMAScript, which \<^verbatim>\<open>trim\<close> removes from both
  ends of a string.
\<close>

definition white_space :: "nat \<Rightarrow> bool" where
  "white_space u \<longleftrightarrow>
     u \<in> {0x09, 0x0A, 0x0B, 0x0C, 0x0D, 0x20, 0xA0, 0x1680, 0x2028, 0x2029,
          0x202F, 0x205F, 0x3000, 0xFEFF} \<or> (0x2000 \<le> u \<and> u \<le> 0x200A)"

definition trim :: "jsstring \<Rightarrow> jsstring" where
  "trim s = rev (dropWhile white_space (rev (dropWhile white_space s)))"

fun decimal :: "nat \<Rightarrow> string" where
  "decimal n =
     (if n < 10 then [char_of (48 + n)]
      else decimal (n div 10) @ [char_of (48 + n mod 10)])"

section \<open>The game (frontend/src/App.js)\<close>

definition POKEMON_IDS :: "nat list" where
  "POKEMON_IDS = [1, 4, 7, 25, 39, 52, 54, 133]"

text \<open>A card object. The field \<^verbatim>\<open>id\<close> is \<open>id'\<close> here.\<close>

record card =
  id' :: nat
  pokemonId :: nat
  image :: jsstring
  isFlipped :: bool
  isMatched :: bool

text \<open>The ten state variables of the \<^verbatim>\<open>App\<close> component, with their \<^verbatim>\<open>useState\<close> defaults.\<close>

record game =
  cards :: "card list"
  flippedCards :: "nat list"
  matchedPairs :: "nat list"
  score :: nat
  tries :: nat
  gameOver :: bool
  playerName :: jsstring
  showNameInput :: bool
  leaderboard :: json
  showLeaderboard :: bool

definition initial_state :: game where
  "initial_state =
     \<lparr>cards = [], flippedCards = [], matchedPairs = [], score = 0, tries = 0,
      gameOver = False, playerName = [], showNameInput = False,
      leaderboard = JArr [], showLeaderboard = False\<rparr>"

definition image_url :: "nat \<Rightarrow> jsstring" where
  "image_url pokemon =
     js (''https://raw.githubusercontent.com/PokeAPI/sprites/master/sprites/pokemon/other/official-artwork/''
         @ decimal pokemon @ ''.png'')"

text \<open>The callback of \<^verbatim>\<open>pokemonPairs.map\<close>: the card made from an element and its index.\<close>

definition new_card :: "nat \<Rightarrow> nat \<Rightarrow> card" where
  "new_card pokemon index =
     \<lparr>id' = index, pokemonId = pokemon, image = image_url pokemon,
      isFlipped = False, isMatched = False\<rparr>"

definition pokemonPairs :: "nat list" where
  "pokemonPairs = POKEMON_IDS @ POKEMON_IDS"

definition unshuffled :: "card list" where
  "unshuffled = map (\<lambda>index. new_card (pokemonPairs ! index) index) [0..<length pokemonPairs]"

text \<open>
  \<^verbatim>\<open>.sort(() => Math.random() - 0.5)\<close> rearranges the array it is called on. Which
  rearrangement comes out depends on the random numbers and on the engine's sorting
  algorithm; it is the parameter \<open>perm\<close>, the list that names, for each position of the
  result, the index the element had before.
\<close>

definition sort_random :: "nat list \<Rightarrow> 'a list \<Rightarrow> 'a list" where
  "sort_random perm xs = map (\<lambda>i. xs ! i) perm"

definition rearrangement :: "nat list \<Rightarrow> nat \<Rightarrow> bool" where
  "rearrangement perm n \<longleftrightarrow> mset perm = mset [0..<n]"

definition initializeGame :: "nat list \<Rightarrow> game \<Rightarrow> game" where
  "initializeGame perm g =
     (let shuffled = sort_random perm unshuffled
      in g\<lparr>cards := shuffled, flippedCards := [], matchedPairs := [], score := 0,
           tries := 0, gameOver := False, showNameInput := False\<rparr>)"

text \<open>
  \<^verbatim>\<open>saveResult\<close> up to its \<^verbatim>\<open>await\<close>: either the alert that asks for a name, and no
  request, or the body of the request posted to \<^verbatim>\<open>/api/results\<close>.
\<close>

datatype save_request = AlertEnterName | Post json

definition saveResult :: "game \<Rightarrow> save_request" where
  "saveResult g =
     (if trim (playerName g) = [] then AlertEnterName
      else Post (json_object
        [(''player_name'', Some (JStr (playerName g))),
         (''score'', Some (JNum (real (score g)))),
         (''tries'', Some (JNum (real (tries g)))),
         (''matches'', Some (JNum (real (length (matchedPairs g) + 1))))]))"

text \<open>What \<^verbatim>\<open>saveResult\<close> does to the state once the request has succeeded or failed.\<close>

definition saveResult_settled :: "bool \<Rightarrow> game \<Rightarrow> game" where
  "saveResult_settled ok g = (if ok then g\<lparr>showNameInput := False\<rparr> else g)"

subsection \<open>Clicks and timers\<close>

text \<open>
  \<^verbatim>\<open>handleCardClick\<close> ends in one of two \<^verbatim>\<open>setTimeout\<close> calls. A timer is the
  callback's closure: the variables of the click that the callback reads when it runs.
\<close>

datatype timer =
    MatchTimer "card list" nat "nat list"
      \<comment> \<open>after 500 ms: \<^verbatim>\<open>updatedCards\<close>, \<^verbatim>\<open>firstCard.pokemonId\<close>, \<^verbatim>\<open>newMatchedPairs\<close>\<close>
  | MismatchTimer "card list" "nat list"
      \<comment> \<open>after 1000 ms: \<^verbatim>\<open>updatedCards\<close>, \<^verbatim>\<open>newFlippedCards\<close>\<close>

datatype error = TypeError

text \<open>
  A call of the handler returns, with the state its setters have produced and the timer
  it has scheduled, or throws, with the state produced by the setters that ran before.
  \<open>after\<close> and \<open>scheduled\<close> read the two off an outcome.
\<close>

datatype outcome = Returned game "timer option" | Threw error game

fun after :: "outcome \<Rightarrow> game" where
  "after (Returned g t) = g"
| "after (Threw e g) = g"

fun scheduled :: "outcome \<Rightarrow> timer list" where
  "scheduled (Returned g (Some t)) = [t]"
| "scheduled (Returned g None) = []"
| "scheduled (Threw e g) = []"

definition handleCardClick :: "game \<Rightarrow> nat \<Rightarrow> outcome" where
  "handleCardClick g cardId =
     (case find (\<lambda>c. id' c = cardId) (cards g) of
        None \<Rightarrow> Threw TypeError g
      | Some card' \<Rightarrow>
          if isFlipped card' \<or> isMatched card' \<or> length (flippedCards g) = 2 \<or>
             List.member (matchedPairs g) (pokemonId card')
          then Returned g None
          else
            let newFlippedCards = flippedCards g @ [cardId];
                updatedCards =
                  map (\<lambda>c. if id' c = cardId then c\<lparr>isFlipped := True\<rparr> else c) (cards g);
                g1 = g\<lparr>flippedCards := newFlippedCards, cards := updatedCards\<rparr>
            in if length newFlippedCards = 2 then
                 let firstCardId = newFlippedCards ! 0;
                     secondCardId = newFlippedCards ! 1;
                     g2 = g1\<lparr>tries := tries g + 1\<rparr>
                 in case (find (\<lambda>c. id' c = firstCardId) (cards g),
                          find (\<lambda>c. id' c = secondCardId) updatedCards) of
                      (Some firstCard, Some secondCard) \<Rightarrow>
                        if pokemonId firstCard = pokemonId secondCard then
                          let newMatchedPairs = matchedPairs g @ [pokemonId firstCard]
                          in Returned
                               (g2\<lparr>matchedPairs := newMatchedPairs, score := score g + 10\<rparr>)
                               (Some (MatchTimer updatedCards (pokemonId firstCard)
                                        newMatchedPairs))
                        else Returned g2 (Some (MismatchTimer updatedCards newFlippedCards))
                    | _ \<Rightarrow> Threw TypeError g2
               else Returned g1 None)"

text \<open>The two timer callbacks.\<close>

fun fire :: "timer \<Rightarrow> game \<Rightarrow> game" where
  "fire (MatchTimer updatedCards pokemon newMatchedPairs) g =
     (let matchedCards =
            map (\<lambda>c. if pokemonId c = pokemon then c\<lparr>isMatched := True, isFlipped := True\<rparr>
                      else c) updatedCards;
          g1 = g\<lparr>cards := matchedCards, flippedCards := []\<rparr>
      in if length newMatchedPairs = length POKEMON_IDS
         then g1\<lparr>gameOver := True, showNameInput := True\<rparr>
         else g1)"
| "fire (MismatchTimer updatedCards newFlippedCards) g =
     (let resetCards =
            map (\<lambda>c. if List.member newFlippedCards (id' c) then c\<lparr>isFlipped := False\<rparr>
                      else c) updatedCards
      in g\<lparr>cards := resetCards, flippedCards := []\<rparr>)"

text \<open>
  The running application: the component's state and the timers that are scheduled and
  have not fired. An event is a click on a card or the firing of one of the pending
  timers, or a click on the button \<^verbatim>\<open>New Game\<close>, which runs \<^verbatim>\<open>initializeGame\<close> with
  the outcome of a new shuffle and cancels no timer. The component is rendered again
  between two events, so each handler reads the state the event before it has left.
  Timers may fire in any order here; in the browser the one that is due first fires
  first.
\<close>

record world =
  state :: game
  timers :: "timer list"

datatype event = Click nat | Timeout nat | NewGame "nat list"

fun step :: "world \<Rightarrow> event \<Rightarrow> world" where
  "step w (Click cardId) =
     (let r = handleCardClick (state w) cardId
      in \<lparr>state = after r, timers = timers w @ scheduled r\<rparr>)"
| "step w (Timeout k) =
     (if k < length (timers w)
      then \<lparr>state = fire (timers w ! k) (state w),
            timers = take k (timers w) @ drop (Suc k) (timers w)\<rparr>
      else w)"
| "step w (NewGame perm) = \<lparr>state = initializeGame perm (state w), timers = timers w\<rparr>"

definition run :: "world \<Rightarrow> event list \<Rightarrow> world" where
  "run w evs = foldl step w evs"

text \<open>The application once its first effect has run \<^verbatim>\<open>initializeGame\<close>.\<close>

definition start :: "nat list \<Rightarrow> world" where
  "start perm = \<lparr>state = initializeGame perm initial_state, timers = []\<rparr>"

text \<open>The state of a card as the player sees it.\<close>

datatype card_state = hidden | revealed | matched

definition state_of :: "card \<Rightarrow> card_state" where
  "state_of c = (if isMatched c then matched else if isFlipped c then revealed else hidden)"

text \<open>
  A click is accepted when the handler gets past its guard: the card exists and is
  neither flipped nor matched, the pending cards are not exactly two, and the card's
  symbol is not among the matched pairs.
\<close>

definition accepted :: "game \<Rightarrow> nat \<Rightarrow> bool" where
  "accepted g cardId \<longleftrightarrow>
     (case find (\<lambda>c. id' c = cardId) (cards g) of
        None \<Rightarrow> False
      | Some card' \<Rightarrow>
          \<not> isFlipped card' \<and> \<not> isMatched card' \<and> length (flippedCards g) \<noteq> 2 \<and>
          \<not> List.member (matchedPairs g) (pokemonId card'))"

text \<open>The card list a timer has captured, and the ids of the cards it turns face down.\<close>

fun snapshot :: "timer \<Rightarrow> card list" where
  "snapshot (MatchTimer updatedCards pokemon newMatchedPairs) = updatedCards"
| "snapshot (MismatchTimer updatedCards newFlippedCards) = updatedCards"

fun hides :: "timer \<Rightarrow> nat list" where
  "hides (MatchTimer updatedCards pokemon newMatchedPairs) = []"
| "hides (MismatchTimer updatedCards newFlippedCards) = newFlippedCards"

text \<open>
  What holds of the application while it waits for an event, from the start and as long
  as no new game is started: ids are distinct, a matched card is face up and not
  pending, and a timer is scheduled only while two cards are pending, there is at most
  one, and the cards it has captured are the cards of the state.
\<close>

definition consistent :: "world \<Rightarrow> bool" where
  "consistent w \<longleftrightarrow>
     distinct (map id' (cards (state w))) \<and>
     (\<forall>c \<in> set (cards (state w)).
        isMatched c \<longrightarrow> isFlipped c \<and> id' c \<notin> set (flippedCards (state w))) \<and>
     length (timers w) \<le> 1 \<and>
     (\<forall>t \<in> set (timers w).
        snapshot t = cards (state w) \<and> length (flippedCards (state w)) = 2 \<and>
        set (hides t) \<subseteq> set (flippedCards (state w)))"

text \<open>The events that leave the game the same game.\<close>

fun same_game :: "event \<Rightarrow> bool" where
  "same_game (Click cardId) = True"
| "same_game (Timeout k) = True"
| "same_game (NewGame perm) = False"

text \<open>
  An event is possible when the shuffle it carries, if any, is a rearrangement of the
  sixteen cards.
\<close>

fun possible :: "event \<Rightarrow> bool" where
  "possible (NewGame perm) = rearrangement perm (length unshuffled)"
| "possible e = True"

text \<open>The ids are distinct on the board and in the cards every pending timer has captured.\<close>

definition distinct_ids :: "world \<Rightarrow> bool" where
  "distinct_ids w \<longleftrightarrow>
     distinct (map id' (cards (state w))) \<and>
     (\<forall>t \<in> set (timers w). distinct (map id' (snapshot t)))"

section \<open>The result store (backend/server.js)\<close>

text \<open>
  A value stored in SQLite has one of five storage classes, whatever type its column
  declares. Text and blobs are their bytes; a REAL is a real number.
\<close>

datatype sqlval = SqlNull | SqlInteger int | SqlReal real | SqlText string | SqlBlob string

text \<open>
  A row of the table \<^verbatim>\<open>game_results\<close>. \<^verbatim>\<open>id\<close> is an INTEGER PRIMARY KEY, so it is the
  rowid and always an integer.
\<close>

record row =
  col_id :: int
  col_player_name :: sqlval
  col_score :: sqlval
  col_tries :: sqlval
  col_matches :: sqlval
  col_created_at :: sqlval

text \<open>
  The database file: the rows of \<^verbatim>\<open>game_results\<close> in the order they were inserted, and
  the largest rowid the table has ever held, which AUTOINCREMENT keeps in
  \<^verbatim>\<open>sqlite_sequence\<close>.
\<close>

record database =
  game_results :: "row list"
  sequence :: int

text \<open>
  The order in which SQLite compares two values: NULL first, then INTEGER and REAL by
  their numeric value, then TEXT, then BLOB, the last two byte by byte. It is the
  lexicographic order of these triples.
\<close>

fun sql_key :: "sqlval \<Rightarrow> nat \<times> real \<times> string" where
  "sql_key SqlNull = (0, 0, [])"
| "sql_key (SqlInteger i) = (1, of_int i, [])"
| "sql_key (SqlReal r) = (1, r, [])"
| "sql_key (SqlText s) = (2, 0, s)"
| "sql_key (SqlBlob b) = (3, 0, b)"

text \<open>\<^verbatim>\<open>ORDER BY score DESC, tries ASC\<close>: row \<open>a\<close> may stand before row \<open>b\<close>.\<close>

definition precedes :: "row \<Rightarrow> row \<Rightarrow> bool" where
  "precedes a b \<longleftrightarrow>
     sql_key (col_score b) < sql_key (col_score a) \<or>
     sql_key (col_score a) = sql_key (col_score b) \<and>
       sql_key (col_tries a) \<le> sql_key (col_tries b)"

fun insert_row :: "row \<Rightarrow> row list \<Rightarrow> row list" where
  "insert_row r [] = [r]"
| "insert_row r (x # xs) = (if precedes r x then r # x # xs else x # insert_row r xs)"

definition order_by :: "row list \<Rightarrow> row list" where
  "order_by rows = foldr insert_row rows []"

text \<open>\<^verbatim>\<open>SELECT * FROM game_results ORDER BY score DESC, tries ASC LIMIT 10\<close>\<close>

definition select_leaderboard :: "database \<Rightarrow> row list" where
  "select_leaderboard db = take 10 (order_by (game_results db))"

text \<open>
  What a handler sends: the status (200 unless \<^verbatim>\<open>res.status\<close> was called) and the
  value given to \<^verbatim>\<open>res.json\<close>, which is an object literal or the rows of a query.
\<close>

datatype payload = Json json | Rows "row list"

record response =
  status :: nat
  body :: payload

text \<open>
  How a bound JavaScript value ends up in a column is decided by the sqlite3 driver and
  by the type the column declares, neither of which is code of this repository: the
  handlers take it as the parameter \<open>bind\<close>. The other parameters are the server's
  clock, for \<^verbatim>\<open>CURRENT_TIMESTAMP\<close>, and the error the database call reports, if any.
\<close>

datatype coltype = TEXT | INTEGER

definition post_results ::
  "(coltype \<Rightarrow> json option \<Rightarrow> sqlval) \<Rightarrow> string \<Rightarrow> jsstring option \<Rightarrow> database \<Rightarrow> json
     \<Rightarrow> response \<times> database" where
  "post_results bind now err db req_body =
     (let player_name = field req_body ''player_name'';
          score = field req_body ''score'';
          tries = field req_body ''tries'';
          matches = field req_body ''matches''
      in if \<not> truthy player_name \<or> score = None \<or> tries = None \<or> matches = None then
           (\<lparr>status = 400,
             body = Json (json_object
               [(''error'', Some (JStr (js ''Missing required fields'')))])\<rparr>, db)
         else
           case err of
             Some message \<Rightarrow>
               (\<lparr>status = 500,
                 body = Json (json_object [(''error'', Some (JStr message))])\<rparr>, db)
           | None \<Rightarrow>
               let lastID = sequence db + 1;
                   inserted =
                     \<lparr>col_id = lastID,
                      col_player_name =
                        bind TEXT (js_or player_name (Some (JStr (js ''Anonymous'')))),
                      col_score = bind INTEGER score,
                      col_tries = bind INTEGER tries,
                      col_matches = bind INTEGER matches,
                      col_created_at = SqlText now\<rparr>
               in (\<lparr>status = 200,
                    body = Json (json_object
                      [(''id'', Some (JNum (of_int lastID))),
                       (''player_name'', js_or player_name (Some (JStr (js ''Anonymous'')))),
                       (''score'', score),
                       (''tries'', tries),
                       (''matches'', matches),
                       (''message'', Some (JStr (js ''Result saved successfully'')))])\<rparr>,
                   db\<lparr>game_results := game_results db @ [inserted], sequence := lastID\<rparr>))"

definition get_leaderboard :: "jsstring option \<Rightarrow> database \<Rightarrow> response" where
  "get_leaderboard err db =
     (case err of
        Some message \<Rightarrow>
          \<lparr>status = 500, body = Json (json_object [(''error'', Some (JStr message))])\<rparr>
      | None \<Rightarrow> \<lparr>status = 200, body = Rows (select_leaderboard db)\<rparr>)"

section \<open>Example inputs\<close>

text \<open>Two outcomes of the shuffle: every card stays in place; the first two change places.\<close>

definition identity_perm :: "nat list" where
  "identity_perm = [0, 1, 2, 3, 4, 5, 6, 7, 8, 9, 10, 11, 12, 13, 14, 15]"

definition swapped_perm :: "nat list" where
  "swapped_perm = [1, 0, 2, 3, 4, 5, 6, 7, 8, 9, 10, 11, 12, 13, 14, 15]"

text \<open>The state of a game that was won in eleven tries, with a name typed in.\<close>

definition finished_game :: game where
  "finished_game =
     initial_state\<lparr>matchedPairs := [1, 25, 4, 133, 7, 54, 39, 52], score := 80, tries := 11,
       gameOver := True, showNameInput := True, playerName := js ''Ash''\<rparr>"

text \<open>
  A \<open>bind\<close> for the examples. It stores what SQLite stores when an ASCII string is bound
  to the TEXT column, a number to an INTEGER column, and \<^verbatim>\<open>null\<close> to either. The
  remaining combinations are converted by rules of SQLite that no example uses; they are
  NULL here.
\<close>

fun plain_bind :: "coltype \<Rightarrow> json option \<Rightarrow> sqlval" where
  "plain_bind TEXT (Some (JStr s)) = SqlText (map char_of s)"
| "plain_bind INTEGER (Some (JNum x)) =
     (if x = of_int \<lfloor>x\<rfloor> then SqlInteger \<lfloor>x\<rfloor> else SqlReal x)"
| "plain_bind t v = SqlNull"

text \<open>The three stored results of the leaderboard example.\<close>

definition result_50_4 :: row where
  "result_50_4 =
     \<lparr>col_id = 1, col_player_name = SqlText ''Ash'', col_score = SqlInteger 50,
      col_tries = SqlInteger 4, col_matches = SqlInteger 6,
      col_created_at = SqlText ''2024-05-01 10:00:00''\<rparr>"

definition result_50_2 :: row where
  "result_50_2 =
     \<lparr>col_id = 2, col_player_name = SqlText ''Misty'', col_score = SqlInteger 50,
      col_tries = SqlInteger 2, col_matches = SqlInteger 6,
      col_created_at = SqlText ''2024-05-01 10:05:00''\<rparr>"

definition result_30_1 :: row where
  "result_30_1 =
     \<lparr>col_id = 3, col_player_name = SqlText ''Brock'', col_score = SqlInteger 30,
      col_tries = SqlInteger 1, col_matches = SqlInteger 4,
      col_created_at = SqlText ''2024-05-01 10:10:00''\<rparr>"

definition three_results :: database where
  "three_results = \<lparr>game_results = [result_50_4, result_50_2, result_30_1], sequence = 3\<rparr>"

text \<open>Requests: one whose score is \<^verbatim>\<open>null\<close>, one without a name, one with three zeros.\<close>

definition null_score_request :: json where
  "null_score_request =
     JObj [(''player_name'', JStr (js ''Gary'')), (''score'', JNull),
           (''tries'', JNum 12), (''matches'', JNum 9)]"

definition empty_name_request :: json where
  "empty_name_request =
     JObj [(''player_name'', JStr []), (''score'', JNum 80),
           (''tries'', JNum 12), (''matches'', JNum 9)]"

definition zeros_request :: json where
  "zeros_request =
     JObj [(''player_name'', JStr (js ''Gary'')), (''score'', JNum 0),
           (''tries'', JNum 0), (''matches'', JNum 0)]"

section \<open>Starting a game\<close>

lemma length_unshuffled: "length unshuffled = 2 * length POKEMON_IDS"
  by (simp add: unshuffled_def pokemonPairs_def)

lemma map_pokemonId_unshuffled: "map pokemonId unshuffled = pokemonPairs"
  by (simp add: unshuffled_def new_card_def map_nth o_def)

lemma map_id_unshuffled: "map id' unshuffled = [0..<length pokemonPairs]"
  by (simp add: unshuffled_def new_card_def o_def)

lemma mset_sort_random:
  assumes "rearrangement perm (length xs)"
  shows "mset (sort_random perm xs) = mset xs"
proof -
  have "mset (sort_random perm xs) = image_mset (\<lambda>i. xs ! i) (mset perm)"
    by (simp add: sort_random_def)
  also have "\<dots> = image_mset (\<lambda>i. xs ! i) (mset [0..<length xs])"
    using assms by (simp add: rearrangement_def)
  also have "\<dots> = mset (map (\<lambda>i. xs ! i) [0..<length xs])"
    by simp
  also have "\<dots> = mset xs"
    by (simp add: map_nth)
  finally show ?thesis .
qed

lemma length_sort_random: "length (sort_random perm xs) = length perm"
  by (simp add: sort_random_def)

lemma rearrangement_length: "rearrangement perm n \<Longrightarrow> length perm = n"
  by (metis rearrangement_def size_mset length_upt diff_zero)

lemma cards_initializeGame: "cards (initializeGame perm g) = sort_random perm unshuffled"
  by (simp add: initializeGame_def)

lemma distinct_POKEMON_IDS: "distinct POKEMON_IDS"
  by (simp add: POKEMON_IDS_def)

lemma count_pokemonPairs:
  "p \<in> set pokemonPairs \<Longrightarrow> count (mset pokemonPairs) p = 2"
  using distinct_POKEMON_IDS
  by (simp add: pokemonPairs_def distinct_count_atmost_1)

lemma count_map_filter:
  "count (mset (map f xs)) y = length (filter (\<lambda>x. f x = y) xs)"
  by (induction xs) auto

text \<open>
  C3. A newly initialised game has exactly twice as many cards as there are pairs, and
  every symbol that is on the board is on exactly two cards, whatever rearrangement the
  shuffle produced.
\<close>

theorem initializeGame_pairs:
  assumes "rearrangement perm (length unshuffled)"
  shows "length (cards (initializeGame perm g)) = 2 * length POKEMON_IDS \<and>
         (\<forall>p \<in> set (map pokemonId (cards (initializeGame perm g))).
            length (filter (\<lambda>c. pokemonId c = p) (cards (initializeGame perm g))) = 2)"
proof
  show "length (cards (initializeGame perm g)) = 2 * length POKEMON_IDS"
    using rearrangement_length [OF assms]
    by (simp add: cards_initializeGame length_sort_random length_unshuffled)
next
  let ?cs = "cards (initializeGame perm g)"
  have m: "mset (map pokemonId ?cs) = mset pokemonPairs"
    using mset_sort_random [OF assms] map_pokemonId_unshuffled
    by (metis cards_initializeGame mset_map)
  show "\<forall>p \<in> set (map pokemonId ?cs). length (filter (\<lambda>c. pokemonId c = p) ?cs) = 2"
  proof
    fix p assume "p \<in> set (map pokemonId ?cs)"
    then have "p \<in> set pokemonPairs"
      using m by (metis set_mset_mset)
    then have "count (mset (map pokemonId ?cs)) p = 2"
      using m count_pokemonPairs by simp
    moreover have "count (mset (map pokemonId ?cs)) p = length (filter (\<lambda>c. pokemonId c = p) ?cs)"
      by (rule count_map_filter)
    ultimately show "length (filter (\<lambda>c. pokemonId c = p) ?cs) = 2"
      by simp
  qed
qed

lemma rearrangement_set: "rearrangement perm n \<Longrightarrow> set perm = {0..<n}"
  by (metis rearrangement_def set_mset_mset set_upt)

lemma rearrangement_distinct: "rearrangement perm n \<Longrightarrow> distinct perm"
  by (metis rearrangement_def distinct_upt mset_eq_imp_distinct_iff)

lemma nth_unshuffled:
  "i < length pokemonPairs \<Longrightarrow> unshuffled ! i = new_card (pokemonPairs ! i) i"
  by (simp add: unshuffled_def)

lemma length_unshuffled_pairs: "length unshuffled = length pokemonPairs"
  by (simp add: unshuffled_def)

lemma map_id_sort_random:
  assumes "rearrangement perm (length unshuffled)"
  shows "map id' (sort_random perm unshuffled) = perm"
proof -
  have "\<forall>i \<in> set perm. i < length pokemonPairs"
    using rearrangement_set [OF assms] by (simp add: length_unshuffled_pairs)
  then have "map (\<lambda>i. id' (unshuffled ! i)) perm = map (\<lambda>i. i) perm"
    by (intro map_cong) (simp_all add: nth_unshuffled new_card_def)
  then show ?thesis by (simp add: sort_random_def o_def)
qed

lemma length_unshuffled_16: "length unshuffled = 16"
  by (simp add: length_unshuffled POKEMON_IDS_def)

lemma rearrangement_identity_perm: "rearrangement identity_perm (length unshuffled)"
  unfolding length_unshuffled_16 by code_simp

lemma rearrangement_swapped_perm: "rearrangement swapped_perm (length unshuffled)"
  unfolding length_unshuffled_16 by code_simp

lemma cards_swapped_perm:
  "cards (initializeGame swapped_perm g) =
     [new_card 4 1, new_card 1 0, new_card 7 2, new_card 25 3, new_card 39 4, new_card 52 5,
      new_card 54 6, new_card 133 7, new_card 1 8, new_card 4 9, new_card 7 10,
      new_card 25 11, new_card 39 12, new_card 52 13, new_card 54 14, new_card 133 15]"
  by (simp add: initializeGame_def sort_random_def swapped_perm_def nth_unshuffled
      pokemonPairs_def POKEMON_IDS_def)

lemma start_identity_perm:
  "start identity_perm =
     \<lparr>state = initial_state
        \<lparr>cards :=
           [new_card 1 0, new_card 4 1, new_card 7 2, new_card 25 3, new_card 39 4,
            new_card 52 5, new_card 54 6, new_card 133 7, new_card 1 8, new_card 4 9,
            new_card 7 10, new_card 25 11, new_card 39 12, new_card 52 13, new_card 54 14,
            new_card 133 15]\<rparr>,
      timers = []\<rparr>"
  by (simp add: start_def initializeGame_def sort_random_def identity_perm_def nth_unshuffled
      pokemonPairs_def POKEMON_IDS_def initial_state_def)

lemma initializeGame_identity_perm:
  "initializeGame identity_perm g =
     g\<lparr>cards :=
         [new_card 1 0, new_card 4 1, new_card 7 2, new_card 25 3, new_card 39 4,
          new_card 52 5, new_card 54 6, new_card 133 7, new_card 1 8, new_card 4 9,
          new_card 7 10, new_card 25 11, new_card 39 12, new_card 52 13, new_card 54 14,
          new_card 133 15],
       flippedCards := [], matchedPairs := [], score := 0, tries := 0, gameOver := False,
       showNameInput := False\<rparr>"
  by (simp add: initializeGame_def sort_random_def identity_perm_def nth_unshuffled
      pokemonPairs_def POKEMON_IDS_def)

lemmas eval_game = run_def start_identity_perm initial_state_def new_card_def
  handleCardClick_def Let_def state_of_def POKEMON_IDS_def

theorem initializeGame_pairs_witness:
  "rearrangement swapped_perm (length unshuffled) \<and>
   length (cards (initializeGame swapped_perm initial_state)) = 16 \<and>
   25 \<in> set (map pokemonId (cards (initializeGame swapped_perm initial_state))) \<and>
   length (filter (\<lambda>c. pokemonId c = 25) (cards (initializeGame swapped_perm initial_state))) = 2"
proof -
  note h = rearrangement_swapped_perm
  have m: "25 \<in> set (map pokemonId (cards (initializeGame swapped_perm initial_state)))"
    by (simp add: cards_swapped_perm new_card_def)
  have n: "2 * length POKEMON_IDS = 16"
    by (simp add: POKEMON_IDS_def)
  have "length (cards (initializeGame swapped_perm initial_state)) = 16"
    using n initializeGame_pairs [OF h, of initial_state] by simp
  moreover have
    "length (filter (\<lambda>c. pokemonId c = 25) (cards (initializeGame swapped_perm initial_state))) = 2"
    using m initializeGame_pairs [OF h, of initial_state] by blast
  ultimately show ?thesis
    using h m by blast
qed

text \<open>
  C7, as stated: after the shuffle the card at position \<open>i\<close> has id \<open>i\<close>. Where the
  shuffle exchanges the first two cards, the card at position 0 has id 1.
\<close>

theorem shuffled_id_counterexample:
  "rearrangement swapped_perm (length unshuffled) \<and>
   id' (cards (initializeGame swapped_perm initial_state) ! 0) \<noteq> 0"
  by (simp add: rearrangement_swapped_perm cards_swapped_perm new_card_def)

text \<open>
  C7, amended. The ids are given before the shuffle and the shuffle moves whole cards:
  the card at position \<open>i\<close> keeps the index it had before the shuffle as its id, and its
  symbol is the one \<^verbatim>\<open>pokemonPairs\<close> has at that index. The ids on the board are the
  numbers below twice the pair count, each on one card.
\<close>

theorem shuffled_id_is_old_index:
  assumes "rearrangement perm (length unshuffled)"
  shows "(\<forall>i < length (cards (initializeGame perm g)).
            id' (cards (initializeGame perm g) ! i) = perm ! i \<and>
            pokemonId (cards (initializeGame perm g) ! i) =
              pokemonPairs ! id' (cards (initializeGame perm g) ! i)) \<and>
         distinct (map id' (cards (initializeGame perm g))) \<and>
         set (map id' (cards (initializeGame perm g))) = {0..<2 * length POKEMON_IDS}"
proof -
  let ?cs = "cards (initializeGame perm g)"
  have ids: "map id' ?cs = perm"
    using map_id_sort_random [OF assms] by (simp add: cards_initializeGame)
  have len: "length ?cs = length perm"
    by (simp add: cards_initializeGame length_sort_random)
  have rng: "\<forall>i \<in> set perm. i < length pokemonPairs"
    using rearrangement_set [OF assms] by (simp add: length_unshuffled_pairs)
  have "\<forall>i < length ?cs.
          id' (?cs ! i) = perm ! i \<and> pokemonId (?cs ! i) = pokemonPairs ! id' (?cs ! i)"
  proof (intro allI impI)
    fix i assume i: "i < length ?cs"
    then have p: "perm ! i < length pokemonPairs"
      using rng len by simp
    have c: "?cs ! i = unshuffled ! (perm ! i)"
      using i len by (simp add: cards_initializeGame sort_random_def)
    show "id' (?cs ! i) = perm ! i \<and> pokemonId (?cs ! i) = pokemonPairs ! id' (?cs ! i)"
      using p by (simp add: c nth_unshuffled new_card_def)
  qed
  moreover have "distinct (map id' ?cs)"
    using rearrangement_distinct [OF assms] ids by simp
  moreover have "set (map id' ?cs) = {0..<2 * length POKEMON_IDS}"
    using rearrangement_set [OF assms] ids by (simp add: length_unshuffled)
  ultimately show ?thesis by blast
qed

theorem shuffled_id_is_old_index_witness:
  "rearrangement swapped_perm (length unshuffled) \<and>
   id' (cards (initializeGame swapped_perm initial_state) ! 0) = swapped_perm ! 0 \<and>
   pokemonId (cards (initializeGame swapped_perm initial_state) ! 0) = 4 \<and>
   distinct (map id' (cards (initializeGame swapped_perm initial_state)))"
proof -
  note h = rearrangement_swapped_perm
  have l: "0 < length (cards (initializeGame swapped_perm initial_state))"
    by (simp add: cards_swapped_perm)
  have p: "pokemonId (cards (initializeGame swapped_perm initial_state) ! 0) = 4"
    by (simp add: cards_swapped_perm new_card_def)
  show ?thesis
    using h l p shuffled_id_is_old_index [OF h, of initial_state] by blast
qed

section \<open>Saving the result\<close>

lemma field_json_object_Cons:
  "field (json_object ((k, v) # kvs)) k' =
     (if k = k' \<and> v \<noteq> None then v else field (json_object kvs) k')"
  by (cases v) (auto simp: json_object_def List.map_filter_def)

lemma field_json_object_Nil: "field (json_object []) k = None"
  by (simp add: json_object_def List.map_filter_def)

lemma trim_Ash: "trim (js ''Ash'') = js ''Ash''"
  by (simp add: trim_def js_def white_space_def)

text \<open>
  C1. \<^verbatim>\<open>saveResult\<close> builds a request unless the name is blank, and in every request it
  builds the field \<^verbatim>\<open>matches\<close> is the length of \<^verbatim>\<open>matchedPairs\<close> plus one.
\<close>

theorem saveResult_matches:
  "(saveResult g = AlertEnterName \<longleftrightarrow> trim (playerName g) = []) \<and>
   (\<forall>req. saveResult g = Post req \<longrightarrow>
      field req ''matches'' = Some (JNum (real (length (matchedPairs g)) + 1)))"
  by (auto simp: saveResult_def field_json_object_Cons field_json_object_Nil)

theorem saveResult_matches_witness:
  "length (matchedPairs finished_game) = 8 \<and>
   saveResult finished_game =
     Post (JObj [(''player_name'', JStr (js ''Ash'')), (''score'', JNum 80),
                 (''tries'', JNum 11), (''matches'', JNum 9)]) \<and>
   field (JObj [(''player_name'', JStr (js ''Ash'')), (''score'', JNum 80),
                (''tries'', JNum 11), (''matches'', JNum 9)]) ''matches'' = Some (JNum 9)"
proof -
  have r: "saveResult finished_game =
     Post (JObj [(''player_name'', JStr (js ''Ash'')), (''score'', JNum 80),
                 (''tries'', JNum 11), (''matches'', JNum 9)])"
    by (simp add: saveResult_def finished_game_def initial_state_def trim_Ash
        json_object_def List.map_filter_def) (simp add: js_def)
  have l: "length (matchedPairs finished_game) = 8"
    by (simp add: finished_game_def initial_state_def)
  show ?thesis
    using r l saveResult_matches [of finished_game] by simp
qed

section \<open>The leaderboard\<close>

lemma precedes_total: "precedes a b \<or> precedes b a"
  by (auto simp: precedes_def)

lemma precedes_trans: "precedes a b \<Longrightarrow> precedes b c \<Longrightarrow> precedes a c"
  by (auto simp: precedes_def)

lemma mset_insert_row: "mset (insert_row r rows) = add_mset r (mset rows)"
  by (induction rows) auto

lemma set_insert_row: "set (insert_row r rows) = insert r (set rows)"
  by (induction rows) auto

lemma sorted_insert_row:
  "sorted_wrt precedes rows \<Longrightarrow> sorted_wrt precedes (insert_row r rows)"
proof (induction rows)
  case Nil
  then show ?case by simp
next
  case (Cons x rows)
  show ?case
  proof (cases "precedes r x")
    case True
    then show ?thesis
      using Cons.prems precedes_trans by auto
  next
    case False
    then have "precedes x r"
      using precedes_total by blast
    then show ?thesis
      using False Cons by (auto simp: set_insert_row)
  qed
qed

lemma mset_order_by: "mset (order_by rows) = mset rows"
  by (induction rows) (simp_all add: order_by_def mset_insert_row)

lemma sorted_order_by: "sorted_wrt precedes (order_by rows)"
  by (induction rows) (simp_all add: order_by_def sorted_insert_row)

lemma length_order_by: "length (order_by rows) = length rows"
  by (metis mset_order_by size_mset)

lemma precedes_integers:
  "precedes (a\<lparr>col_score := SqlInteger s, col_tries := SqlInteger t\<rparr>)
            (b\<lparr>col_score := SqlInteger s', col_tries := SqlInteger t'\<rparr>) \<longleftrightarrow>
     s' < s \<or> s = s' \<and> t \<le> t'"
  by (auto simp: precedes_def)

lemma select_three_results:
  "select_leaderboard three_results = [result_50_2, result_50_4, result_30_1]"
  by (simp add: select_leaderboard_def three_results_def order_by_def precedes_def
      result_50_4_def result_50_2_def result_30_1_def)

text \<open>
  C8. \<^verbatim>\<open>GET /api/leaderboard\<close> answers with the first ten rows of a rearrangement of
  the stored rows in which every row precedes all later ones: a row with a greater score
  stands first, and of two rows with equal scores the one with at most as many tries.
  On the three stored results with score and tries 50/4, 50/2 and 30/1 the answer is
  50/2, 50/4, 30/1.
\<close>

theorem leaderboard_order:
  "get_leaderboard None db =
     \<lparr>status = 200, body = Rows (take 10 (order_by (game_results db)))\<rparr> \<and>
   mset (order_by (game_results db)) = mset (game_results db) \<and>
   sorted_wrt precedes (order_by (game_results db)) \<and>
   length (take 10 (order_by (game_results db))) = min (length (game_results db)) 10 \<and>
   (precedes (a\<lparr>col_score := SqlInteger s, col_tries := SqlInteger t\<rparr>)
             (b\<lparr>col_score := SqlInteger s', col_tries := SqlInteger t'\<rparr>) \<longleftrightarrow>
      s' < s \<or> s = s' \<and> t \<le> t') \<and>
   get_leaderboard None three_results =
     \<lparr>status = 200, body = Rows [result_50_2, result_50_4, result_30_1]\<rparr>"
  using select_three_results
  by (simp add: get_leaderboard_def select_leaderboard_def mset_order_by sorted_order_by
      precedes_integers length_order_by)

theorem leaderboard_order_witness:
  "body (get_leaderboard None three_results) = Rows [result_50_2, result_50_4, result_30_1] \<and>
   order_by (game_results three_results) = [result_50_2, result_50_4, result_30_1] \<and>
   precedes result_50_2 result_50_4 \<and> precedes result_50_4 result_30_1"
proof -
  have o: "order_by (game_results three_results) = [result_50_2, result_50_4, result_30_1]"
    using select_three_results by (simp add: select_leaderboard_def three_results_def order_by_def)
  have "sorted_wrt precedes (order_by (game_results three_results))"
    using leaderboard_order [of three_results] by blast
  then have "precedes result_50_2 result_50_4 \<and> precedes result_50_4 result_30_1"
    by (simp add: o)
  moreover have "get_leaderboard None three_results =
      \<lparr>status = 200, body = Rows (take 10 (order_by (game_results three_results)))\<rparr>"
    using leaderboard_order [of three_results] by blast
  then have
    "body (get_leaderboard None three_results) = Rows [result_50_2, result_50_4, result_30_1]"
    by (simp add: o)
  ultimately show ?thesis
    using o by blast
qed

section \<open>Storing a result\<close>

lemma js_Nil_iff: "js s = [] \<longleftrightarrow> s = []"
  by (simp add: js_def)

lemma char_of_js: "map char_of (js s) = s"
  by (simp add: js_def o_def)

lemma post_results_rejects:
  assumes "\<not> truthy (field req ''player_name'') \<or> field req ''score'' = None \<or>
           field req ''tries'' = None \<or> field req ''matches'' = None"
  shows "post_results bind now err db req =
           (\<lparr>status = 400,
             body = Json (JObj [(''error'', JStr (js ''Missing required fields''))])\<rparr>, db)"
  using assms by (auto simp: post_results_def json_object_def List.map_filter_def)

lemma post_results_fails:
  assumes "truthy (field req ''player_name'')" "field req ''score'' \<noteq> None"
    "field req ''tries'' \<noteq> None" "field req ''matches'' \<noteq> None"
  shows "post_results bind now (Some message) db req =
           (\<lparr>status = 500, body = Json (JObj [(''error'', JStr message)])\<rparr>, db)"
  using assms by (auto simp: post_results_def json_object_def List.map_filter_def)

lemma post_results_inserts:
  assumes "field req ''player_name'' = Some p" "truthy (Some p)" "field req ''score'' = Some s"
    "field req ''tries'' = Some t" "field req ''matches'' = Some m"
  shows "post_results bind now None db req =
           (\<lparr>status = 200,
             body = Json (JObj
               [(''id'', JNum (of_int (sequence db + 1))),
                (''player_name'', p), (''score'', s), (''tries'', t), (''matches'', m),
                (''message'', JStr (js ''Result saved successfully''))])\<rparr>,
            db\<lparr>game_results := game_results db @
                  [\<lparr>col_id = sequence db + 1,
                    col_player_name = bind TEXT (Some p),
                    col_score = bind INTEGER (Some s),
                    col_tries = bind INTEGER (Some t),
                    col_matches = bind INTEGER (Some m),
                    col_created_at = SqlText now\<rparr>],
               sequence := sequence db + 1\<rparr>)"
  using assms
  by (simp add: post_results_def json_object_def List.map_filter_def js_or_def Let_def)

lemma status_post_results:
  "status (fst (post_results bind now err db req)) =
     (if \<not> truthy (field req ''player_name'') \<or> field req ''score'' = None \<or>
         field req ''tries'' = None \<or> field req ''matches'' = None then 400
      else if err = None then 200 else 500)"
  by (simp add: post_results_def Let_def split: option.splits)

text \<open>
  C9, as stated: a request with a field of the wrong shape is answered with status 400,
  and an accepted one with the stored row, \<^verbatim>\<open>created_at\<close> included. A request whose
  score is \<^verbatim>\<open>null\<close> is answered with status 200, and the answer has no \<^verbatim>\<open>created_at\<close>.
\<close>

theorem post_results_shape_counterexample:
  "fst (post_results plain_bind ''2024-05-01 10:15:00'' None three_results null_score_request) =
     \<lparr>status = 200,
      body = Json (JObj
        [(''id'', JNum 4), (''player_name'', JStr (js ''Gary'')), (''score'', JNull),
         (''tries'', JNum 12), (''matches'', JNum 9),
         (''message'', JStr (js ''Result saved successfully''))])\<rparr>"
  by (simp add: post_results_def null_score_request_def three_results_def json_object_def
      List.map_filter_def js_or_def js_def)


text \<open>
  C9, amended. The answer is status 400 with \<^verbatim>\<open>{error: "Missing required fields"}\<close>,
  and nothing is stored, exactly when \<^verbatim>\<open>player_name\<close> is falsy (absent, \<^verbatim>\<open>null\<close>,
  \<^verbatim>\<open>false\<close>, 0 or the empty string) or one of \<^verbatim>\<open>score\<close>, \<^verbatim>\<open>tries\<close>, \<^verbatim>\<open>matches\<close> is
  absent; the shape of a value that is present is not tested. Any other request, when
  the database reports no error, appends one row, with the next id and the server's
  time, behind the unchanged prior rows, and is answered with status 200 and the id, the
  four values of the request and a message, without \<^verbatim>\<open>created_at\<close>.
\<close>

theorem post_results_contract:
  "(status (fst (post_results bind now err db req)) = 400 \<longleftrightarrow>
      \<not> truthy (field req ''player_name'') \<or> field req ''score'' = None \<or>
      field req ''tries'' = None \<or> field req ''matches'' = None) \<and>
   (status (fst (post_results bind now err db req)) = 400 \<longrightarrow>
      post_results bind now err db req =
        (\<lparr>status = 400,
          body = Json (JObj [(''error'', JStr (js ''Missing required fields''))])\<rparr>, db)) \<and>
   (field req ''player_name'' = Some p \<and> truthy (Some p) \<and> field req ''score'' = Some s \<and>
    field req ''tries'' = Some t \<and> field req ''matches'' = Some m \<longrightarrow>
      fst (post_results bind now None db req) =
        \<lparr>status = 200,
         body = Json (JObj
           [(''id'', JNum (of_int (sequence db + 1))),
            (''player_name'', p), (''score'', s), (''tries'', t), (''matches'', m),
            (''message'', JStr (js ''Result saved successfully''))])\<rparr> \<and>
      game_results (snd (post_results bind now None db req)) =
        game_results db @
          [\<lparr>col_id = sequence db + 1, col_player_name = bind TEXT (Some p),
            col_score = bind INTEGER (Some s), col_tries = bind INTEGER (Some t),
            col_matches = bind INTEGER (Some m), col_created_at = SqlText now\<rparr>] \<and>
      take (length (game_results db)) (game_results (snd (post_results bind now None db req))) =
        game_results db)"
proof (intro conjI impI)
  show "status (fst (post_results bind now err db req)) = 400 \<longleftrightarrow>
      \<not> truthy (field req ''player_name'') \<or> field req ''score'' = None \<or>
      field req ''tries'' = None \<or> field req ''matches'' = None"
    by (simp add: status_post_results)
next
  assume "status (fst (post_results bind now err db req)) = 400"
  then have "\<not> truthy (field req ''player_name'') \<or> field req ''score'' = None \<or>
      field req ''tries'' = None \<or> field req ''matches'' = None"
    by (simp add: status_post_results split: if_splits)
  then show "post_results bind now err db req =
        (\<lparr>status = 400,
          body = Json (JObj [(''error'', JStr (js ''Missing required fields''))])\<rparr>, db)"
    by (rule post_results_rejects)
next
  assume a: "field req ''player_name'' = Some p \<and> truthy (Some p) \<and>
    field req ''score'' = Some s \<and> field req ''tries'' = Some t \<and> field req ''matches'' = Some m"
  then have i: "post_results bind now None db req =
           (\<lparr>status = 200,
             body = Json (JObj
               [(''id'', JNum (of_int (sequence db + 1))),
                (''player_name'', p), (''score'', s), (''tries'', t), (''matches'', m),
                (''message'', JStr (js ''Result saved successfully''))])\<rparr>,
            db\<lparr>game_results := game_results db @
                  [\<lparr>col_id = sequence db + 1,
                    col_player_name = bind TEXT (Some p),
                    col_score = bind INTEGER (Some s),
                    col_tries = bind INTEGER (Some t),
                    col_matches = bind INTEGER (Some m),
                    col_created_at = SqlText now\<rparr>],
               sequence := sequence db + 1\<rparr>)"
    by (intro post_results_inserts) simp_all
  show "fst (post_results bind now None db req) =
        \<lparr>status = 200,
         body = Json (JObj
           [(''id'', JNum (of_int (sequence db + 1))),
            (''player_name'', p), (''score'', s), (''tries'', t), (''matches'', m),
            (''message'', JStr (js ''Result saved successfully''))])\<rparr>"
    by (simp add: i)
  show "game_results (snd (post_results bind now None db req)) =
        game_results db @
          [\<lparr>col_id = sequence db + 1, col_player_name = bind TEXT (Some p),
            col_score = bind INTEGER (Some s), col_tries = bind INTEGER (Some t),
            col_matches = bind INTEGER (Some m), col_created_at = SqlText now\<rparr>]"
    by (simp add: i)
  show "take (length (game_results db)) (game_results (snd (post_results bind now None db req))) =
        game_results db"
    by (simp add: i)
qed

theorem post_results_contract_witness:
  "status (fst (post_results plain_bind ''2024-05-01 10:15:00'' None three_results
      empty_name_request)) = 400 \<and>
   post_results plain_bind ''2024-05-01 10:15:00'' None three_results empty_name_request =
     (\<lparr>status = 400,
       body = Json (JObj [(''error'', JStr (js ''Missing required fields''))])\<rparr>,
      three_results) \<and>
   game_results (snd (post_results plain_bind ''2024-05-01 10:15:00'' None three_results
      null_score_request)) =
     [result_50_4, result_50_2, result_30_1,
      \<lparr>col_id = 4, col_player_name = SqlText ''Gary'', col_score = SqlNull,
       col_tries = SqlInteger 12, col_matches = SqlInteger 9,
       col_created_at = SqlText ''2024-05-01 10:15:00''\<rparr>]"
proof -
  have e: "\<not> truthy (field empty_name_request ''player_name'')"
    by (simp add: empty_name_request_def)
  have s4: "status (fst (post_results plain_bind ''2024-05-01 10:15:00'' None three_results
      empty_name_request)) = 400"
    using e post_results_contract [where bind = plain_bind and now = "''2024-05-01 10:15:00''"
        and err = None and db = three_results and req = empty_name_request] by blast
  then have r: "post_results plain_bind ''2024-05-01 10:15:00'' None three_results
      empty_name_request =
     (\<lparr>status = 400,
       body = Json (JObj [(''error'', JStr (js ''Missing required fields''))])\<rparr>,
      three_results)"
    using post_results_contract [where bind = plain_bind and now = "''2024-05-01 10:15:00''"
        and err = None and db = three_results and req = empty_name_request] by blast
  have f: "field null_score_request ''player_name'' = Some (JStr (js ''Gary'')) \<and>
      truthy (Some (JStr (js ''Gary''))) \<and> field null_score_request ''score'' = Some JNull \<and>
      field null_score_request ''tries'' = Some (JNum 12) \<and>
      field null_score_request ''matches'' = Some (JNum 9)"
    by (simp add: null_score_request_def js_Nil_iff)
  have "game_results (snd (post_results plain_bind ''2024-05-01 10:15:00'' None three_results
      null_score_request)) =
      game_results three_results @
          [\<lparr>col_id = sequence three_results + 1,
            col_player_name = plain_bind TEXT (Some (JStr (js ''Gary''))),
            col_score = plain_bind INTEGER (Some JNull),
            col_tries = plain_bind INTEGER (Some (JNum 12)),
            col_matches = plain_bind INTEGER (Some (JNum 9)),
            col_created_at = SqlText ''2024-05-01 10:15:00''\<rparr>]"
    using f post_results_contract [where bind = plain_bind and now = "''2024-05-01 10:15:00''"
        and err = None and db = three_results and req = null_score_request
        and p = "JStr (js ''Gary'')" and s = JNull and t = "JNum 12" and m = "JNum 9"] by blast
  then have "game_results (snd (post_results plain_bind ''2024-05-01 10:15:00'' None
      three_results null_score_request)) =
     [result_50_4, result_50_2, result_30_1,
      \<lparr>col_id = 4, col_player_name = SqlText ''Gary'', col_score = SqlNull,
       col_tries = SqlInteger 12, col_matches = SqlInteger 9,
       col_created_at = SqlText ''2024-05-01 10:15:00''\<rparr>]"
    by (simp add: three_results_def char_of_js)
  then show ?thesis
    using s4 r by blast
qed

text \<open>
  C10. A request whose \<^verbatim>\<open>player_name\<close> is the empty string is answered with status 400
  and stores nothing. A request with a truthy name whose \<^verbatim>\<open>score\<close>, \<^verbatim>\<open>tries\<close> and
  \<^verbatim>\<open>matches\<close> are present is never answered with 400, whatever the three values are, 0
  included: with no database error the answer is status 200 and one row is stored.
\<close>

theorem post_results_empty_name_and_zero:
  "(field req ''player_name'' = Some (JStr []) \<longrightarrow>
      post_results bind now err db req =
        (\<lparr>status = 400,
          body = Json (JObj [(''error'', JStr (js ''Missing required fields''))])\<rparr>, db)) \<and>
   (truthy (field req ''player_name'') \<and> field req ''score'' = Some s \<and>
    field req ''tries'' = Some t \<and> field req ''matches'' = Some m \<and>
    JNum 0 \<in> {s, t, m} \<longrightarrow>
      status (fst (post_results bind now err db req)) \<noteq> 400 \<and>
      status (fst (post_results bind now None db req)) = 200 \<and>
      length (game_results (snd (post_results bind now None db req))) =
        length (game_results db) + 1)"
proof (intro conjI impI)
  assume "field req ''player_name'' = Some (JStr [])"
  then have "\<not> truthy (field req ''player_name'')"
    by simp
  then show "post_results bind now err db req =
        (\<lparr>status = 400,
          body = Json (JObj [(''error'', JStr (js ''Missing required fields''))])\<rparr>, db)"
    by (intro post_results_rejects) simp
next
  assume a: "truthy (field req ''player_name'') \<and> field req ''score'' = Some s \<and>
    field req ''tries'' = Some t \<and> field req ''matches'' = Some m \<and> JNum 0 \<in> {s, t, m}"
  then obtain p where p: "field req ''player_name'' = Some p" "truthy (Some p)"
    by (cases "field req ''player_name''") auto
  show "status (fst (post_results bind now err db req)) \<noteq> 400"
    using a by (simp add: status_post_results)
  show "status (fst (post_results bind now None db req)) = 200"
    using a by (simp add: status_post_results)
  show "length (game_results (snd (post_results bind now None db req))) =
        length (game_results db) + 1"
    using a p by (simp add: post_results_inserts [where p = p and s = s and t = t and m = m])
qed

theorem post_results_empty_name_and_zero_witness:
  "post_results plain_bind ''2024-05-01 10:15:00'' None three_results empty_name_request =
     (\<lparr>status = 400,
       body = Json (JObj [(''error'', JStr (js ''Missing required fields''))])\<rparr>,
      three_results) \<and>
   status (fst (post_results plain_bind ''2024-05-01 10:15:00'' None three_results
      zeros_request)) = 200 \<and>
   length (game_results (snd (post_results plain_bind ''2024-05-01 10:15:00'' None
      three_results zeros_request))) = 4"
proof -
  have e: "field empty_name_request ''player_name'' = Some (JStr [])"
    by (simp add: empty_name_request_def)
  have z: "truthy (field zeros_request ''player_name'') \<and>
      field zeros_request ''score'' = Some (JNum 0) \<and>
      field zeros_request ''tries'' = Some (JNum 0) \<and>
      field zeros_request ''matches'' = Some (JNum 0) \<and> JNum 0 \<in> {JNum 0, JNum 0, JNum 0}"
    by (simp add: zeros_request_def js_Nil_iff)
  have l: "length (game_results three_results) + 1 = 4"
    by (simp add: three_results_def)
  show ?thesis
    using e z l
      post_results_empty_name_and_zero [where req = empty_name_request and bind = plain_bind
        and now = "''2024-05-01 10:15:00''" and err = None and db = three_results]
      post_results_empty_name_and_zero [where req = zeros_request and s = "JNum 0"
        and t = "JNum 0" and m = "JNum 0" and bind = plain_bind
        and now = "''2024-05-01 10:15:00''" and err = None and db = three_results]
    by metis
qed

section \<open>Clicks and timers\<close>

lemma find_map_preserving:
  "(\<And>c. P (f c) = P c) \<Longrightarrow> find P (map f cs) = map_option f (find P cs)"
  by (induction cs) auto

lemma find_SomeD: "find P xs = Some x \<Longrightarrow> x \<in> set xs \<and> P x"
  by (induction xs) (auto split: if_splits)

lemma find_distinct_key:
  assumes "distinct (map f xs)" "find (\<lambda>x. f x = k) xs = Some y" "x \<in> set xs" "f x = k"
  shows "x = y"
  using assms find_SomeD [OF assms(2)] by (metis distinct_map inj_onD)

lemma handleCardClick_ignored:
  "\<not> accepted g cardId \<Longrightarrow>
     after (handleCardClick g cardId) = g \<and> scheduled (handleCardClick g cardId) = []"
  by (auto simp: accepted_def handleCardClick_def split: option.splits)

lemma handleCardClick_accepted:
  assumes "accepted g cardId"
  shows "cards (after (handleCardClick g cardId)) =
           map (\<lambda>c. if id' c = cardId then c\<lparr>isFlipped := True\<rparr> else c) (cards g)"
    and "flippedCards (after (handleCardClick g cardId)) = flippedCards g @ [cardId]"
    and "\<forall>t \<in> set (scheduled (handleCardClick g cardId)).
           snapshot t = cards (after (handleCardClick g cardId)) \<and>
           set (hides t) \<subseteq> set (flippedCards g @ [cardId]) \<and> length (flippedCards g) = 1"
    and "length (scheduled (handleCardClick g cardId)) \<le> 1"
  using assms
  by (auto simp: accepted_def handleCardClick_def Let_def split: option.splits)

lemma flippedCards_fire: "flippedCards (fire t g) = []"
  by (cases t) (simp_all add: Let_def)

lemma pending_step:
  "length (flippedCards (state w)) \<le> 2 \<Longrightarrow> length (flippedCards (state (step w e))) \<le> 2"
proof (cases e)
  case (Click cardId)
  assume l: "length (flippedCards (state w)) \<le> 2"
  show ?thesis
  proof (cases "accepted (state w) cardId")
    case True
    then have "length (flippedCards (state w)) \<noteq> 2"
      by (auto simp: accepted_def split: option.splits)
    then show ?thesis
      using l True Click by (simp add: Let_def handleCardClick_accepted(2))
  next
    case False
    then show ?thesis
      using l Click by (simp add: Let_def handleCardClick_ignored)
  qed
next
  case (Timeout k)
  assume "length (flippedCards (state w)) \<le> 2"
  then show ?thesis
    using Timeout by (simp add: flippedCards_fire)
next
  case (NewGame perm)
  then show ?thesis
    by (simp add: initializeGame_def)
qed

lemma pending_run:
  "length (flippedCards (state w)) \<le> 2 \<Longrightarrow> length (flippedCards (state (run w evs))) \<le> 2"
  unfolding run_def
  by (induction evs arbitrary: w) (simp_all add: pending_step del: step.simps)

lemma third_click_ignored:
  "length (flippedCards (state w)) = 2 \<Longrightarrow> step w (Click cardId) = w"
proof -
  assume "length (flippedCards (state w)) = 2"
  then have "\<not> accepted (state w) cardId"
    by (simp add: accepted_def split: option.splits)
  then show ?thesis
    by (simp add: Let_def handleCardClick_ignored)
qed

text \<open>
  C4. Whatever clicks and timers follow the start of a game, at most two cards are
  pending. While two are pending a click on any card leaves the state and the timers as
  they are; the firing of a timer empties the pending cards.
\<close>

theorem pending_at_most_two:
  "length (flippedCards (state (run (start perm) evs))) \<le> 2 \<and>
   (length (flippedCards (state w)) = 2 \<longrightarrow> step w (Click cardId) = w) \<and>
   (k < length (timers w) \<longrightarrow> flippedCards (state (step w (Timeout k))) = [])"
proof (intro conjI impI)
  have "length (flippedCards (state (start perm))) \<le> 2"
    by (simp add: start_def initializeGame_def)
  then show "length (flippedCards (state (run (start perm) evs))) \<le> 2"
    by (rule pending_run)
next
  assume "length (flippedCards (state w)) = 2"
  then show "step w (Click cardId) = w"
    by (rule third_click_ignored)
next
  assume "k < length (timers w)"
  then show "flippedCards (state (step w (Timeout k))) = []"
    by (simp add: flippedCards_fire)
qed

theorem pending_at_most_two_witness:
  "length (flippedCards (state (run (start identity_perm) [Click 0, Click 1]))) = 2 \<and>
   step (run (start identity_perm) [Click 0, Click 1]) (Click 2) =
     run (start identity_perm) [Click 0, Click 1] \<and>
   length (timers (run (start identity_perm) [Click 0, Click 1])) = 1 \<and>
   flippedCards (state (step (run (start identity_perm) [Click 0, Click 1]) (Timeout 0))) = []"
proof -
  have p: "length (flippedCards (state (run (start identity_perm) [Click 0, Click 1]))) = 2"
    by (simp add: eval_game)
  have t: "length (timers (run (start identity_perm) [Click 0, Click 1])) = 1"
    by (simp add: eval_game)
  show ?thesis
    using p t
      pending_at_most_two [where w = "run (start identity_perm) [Click 0, Click 1]"
        and cardId = 2 and k = 0]
    by (simp del: step.simps)
qed

section \<open>Matched cards\<close>

lemma accepted_card:
  assumes "accepted g cardId"
  obtains card' where "find (\<lambda>c. id' c = cardId) (cards g) = Some card'"
    and "\<not> isFlipped card'" and "\<not> isMatched card'" and "length (flippedCards g) \<noteq> 2"
    and "pokemonId card' \<notin> set (matchedPairs g)"
  using assms by (auto simp: accepted_def split: option.splits)

lemma accepted_not_matched:
  assumes "accepted g cardId" "distinct (map id' (cards g))" "c \<in> set (cards g)" "isMatched c"
  shows "id' c \<noteq> cardId"
proof
  assume i: "id' c = cardId"
  obtain card' where f: "find (\<lambda>c. id' c = cardId) (cards g) = Some card'"
    and m: "\<not> isMatched card'"
    using assms(1) by (rule accepted_card)
  have "c = card'"
    using assms(2) f assms(3) i by (rule find_distinct_key)
  then show False
    using m assms(4) by simp
qed

lemma timers_single:
  assumes "consistent w" "k < length (timers w)"
  shows "k = 0" and "timers w = [timers w ! 0]"
    and "snapshot (timers w ! 0) = cards (state w)"
    and "set (hides (timers w ! 0)) \<subseteq> set (flippedCards (state w))"
proof -
  have l: "length (timers w) = 1"
    using assms by (simp add: consistent_def)
  then show "k = 0"
    using assms(2) by simp
  show t: "timers w = [timers w ! 0]"
    using l by (cases "timers w") simp_all
  then have "timers w ! 0 \<in> set (timers w)"
    by (metis list.set_intros(1))
  then show "snapshot (timers w ! 0) = cards (state w)"
    and "set (hides (timers w ! 0)) \<subseteq> set (flippedCards (state w))"
    using assms(1) by (simp_all add: consistent_def)
qed

lemma marked_unchanged:
  "isMatched c \<Longrightarrow> isFlipped c \<Longrightarrow> c\<lparr>isMatched := True, isFlipped := True\<rparr> = c"
  by simp

lemma cards_fire:
  "cards (fire t g) =
     map (\<lambda>c. case t of
                 MatchTimer u pokemon m \<Rightarrow>
                   if pokemonId c = pokemon then c\<lparr>isMatched := True, isFlipped := True\<rparr> else c
               | MismatchTimer u ids \<Rightarrow>
                   if id' c \<in> set ids then c\<lparr>isFlipped := False\<rparr> else c)
       (snapshot t)"
  by (cases t) (simp_all add: Let_def)

lemma step_keeps_matched:
  assumes "consistent w" "i < length (cards (state w))" "isMatched (cards (state w) ! i)"
    and "same_game e"
  shows "cards (state (step w e)) ! i = cards (state w) ! i"
proof (cases e)
  case (NewGame perm)
  then show ?thesis
    using assms(4) by simp
next
  case (Click cardId)
  show ?thesis
  proof (cases "accepted (state w) cardId")
    case True
    have "id' (cards (state w) ! i) \<noteq> cardId"
      using True assms by (intro accepted_not_matched [of "state w"]) (simp_all add: consistent_def)
    then show ?thesis
      using Click True assms(2) by (simp add: Let_def handleCardClick_accepted(1))
  next
    case False
    then show ?thesis
      using Click by (simp add: Let_def handleCardClick_ignored)
  qed
next
  case (Timeout k)
  show ?thesis
  proof (cases "k < length (timers w)")
    case True
    note s = timers_single [OF assms(1) True]
    have c: "cards (state w) ! i \<in> set (cards (state w))"
      using assms(2) by simp
    then have f: "isFlipped (cards (state w) ! i)"
      and p: "id' (cards (state w) ! i) \<notin> set (flippedCards (state w))"
      using assms(1,3) by (simp_all add: consistent_def)
    have "id' (cards (state w) ! i) \<notin> set (hides (timers w ! 0))"
      using p s(4) by blast
    then have "cards (fire (timers w ! 0) (state w)) ! i = cards (state w) ! i"
      using assms(2,3) f s(3)
      by (cases "timers w ! 0") (simp_all add: cards_fire del: fire.simps)
    then show ?thesis
      using Timeout True s(1) by simp
  next
    case False
    then show ?thesis
      using Timeout by simp
  qed
qed

lemma length_cards_step:
  assumes "consistent w" "same_game e"
  shows "length (cards (state (step w e))) = length (cards (state w))"
proof (cases e)
  case (NewGame perm)
  then show ?thesis
    using assms(2) by simp
next
  case (Click cardId)
  then show ?thesis
    by (cases "accepted (state w) cardId")
      (simp_all add: Let_def handleCardClick_accepted(1) handleCardClick_ignored)
next
  case (Timeout k)
  show ?thesis
  proof (cases "k < length (timers w)")
    case True
    then show ?thesis
      using Timeout timers_single(1,3) [OF assms(1) True]
      by (simp add: cards_fire del: fire.simps)
  next
    case False
    then show ?thesis
      using Timeout by simp
  qed
qed

lemma consistent_click:
  assumes "consistent w"
  shows "consistent (step w (Click cardId))"
proof (cases "accepted (state w) cardId")
  case False
  then have "step w (Click cardId) = w"
    by (simp add: Let_def handleCardClick_ignored)
  then show ?thesis
    using assms by simp
next
  case True
  let ?r = "handleCardClick (state w) cardId"
  let ?flip = "\<lambda>c. if id' c = cardId then c\<lparr>isFlipped := True\<rparr> else c"
  have d: "distinct (map id' (cards (state w)))"
    using assms by (simp add: consistent_def)
  have st: "state (step w (Click cardId)) = after ?r"
    and ti: "timers (step w (Click cardId)) = timers w @ scheduled ?r"
    by (simp_all add: Let_def)
  have cs: "cards (after ?r) = map ?flip (cards (state w))"
    and fl: "flippedCards (after ?r) = flippedCards (state w) @ [cardId]"
    using True by (simp_all add: handleCardClick_accepted)
  have "length (flippedCards (state w)) \<noteq> 2"
    using True by (rule accepted_card)
  then have no: "timers w = []"
    using assms by (cases "timers w") (auto simp: consistent_def)
  have ids: "map id' (map ?flip (cards (state w))) = map id' (cards (state w))"
    by (simp add: o_def if_distrib cong: if_cong)
  have 1: "distinct (map id' (cards (after ?r)))"
    using d by (simp only: cs ids)
  have 2: "\<forall>c \<in> set (cards (after ?r)).
             isMatched c \<longrightarrow> isFlipped c \<and> id' c \<notin> set (flippedCards (after ?r))"
  proof
    fix c' assume "c' \<in> set (cards (after ?r))"
    then obtain c where c: "c \<in> set (cards (state w))" "c' = ?flip c"
      by (auto simp: cs)
    show "isMatched c' \<longrightarrow> isFlipped c' \<and> id' c' \<notin> set (flippedCards (after ?r))"
    proof
      assume "isMatched c'"
      then have m: "isMatched c"
        using c(2) by (simp split: if_splits)
      then have n: "id' c \<noteq> cardId"
        using True d c(1) by (intro accepted_not_matched [of "state w"])
      have "isFlipped c \<and> id' c \<notin> set (flippedCards (state w))"
        using assms c(1) m by (simp add: consistent_def)
      then show "isFlipped c' \<and> id' c' \<notin> set (flippedCards (after ?r))"
        using n c(2) by (simp add: fl)
    qed
  qed
  have 3: "length (timers w @ scheduled ?r) \<le> 1"
    using no handleCardClick_accepted(4) [OF True] by simp
  have 4: "\<forall>t \<in> set (timers w @ scheduled ?r).
             snapshot t = cards (after ?r) \<and> length (flippedCards (after ?r)) = 2 \<and>
             set (hides t) \<subseteq> set (flippedCards (after ?r))"
    using no handleCardClick_accepted(3) [OF True] by (simp add: fl)
  show ?thesis
    unfolding consistent_def st ti using 1 2 3 4 by blast
qed

lemma consistent_timeout:
  assumes "consistent w"
  shows "consistent (step w (Timeout k))"
proof (cases "k < length (timers w)")
  case False
  then show ?thesis
    using assms by simp
next
  case True
  note s = timers_single [OF assms True]
  let ?t = "timers w ! 0"
  have st: "state (step w (Timeout k)) = fire ?t (state w)"
    using True s(1) by simp
  have "take 0 (timers w) @ drop (Suc 0) (timers w) = []"
    using s(2) by (metis append_Nil drop0 drop_Suc list.sel(3) take_0)
  then have ti: "timers (step w (Timeout k)) = []"
    using True s(1) by simp
  have d: "distinct (map id' (cards (state w)))"
    and m: "\<forall>c \<in> set (cards (state w)).
              isMatched c \<longrightarrow> isFlipped c \<and> id' c \<notin> set (flippedCards (state w))"
    using assms by (simp_all add: consistent_def)
  have 1: "distinct (map id' (cards (fire ?t (state w))))"
    using d
    by (cases ?t)
      (simp_all add: cards_fire s(3) [symmetric] o_def if_distrib del: fire.simps cong: if_cong)
  have 2: "\<forall>c \<in> set (cards (fire ?t (state w))). isMatched c \<longrightarrow> isFlipped c"
  proof (cases ?t)
    case (MatchTimer u pokemon ms)
    then show ?thesis
      using m s(3) by (auto simp: cards_fire simp del: fire.simps)
  next
    case (MismatchTimer u ids)
    then have "set ids \<subseteq> set (flippedCards (state w))"
      using s(4) by simp
    then show ?thesis
      using m s(3) MismatchTimer by (auto simp: cards_fire simp del: fire.simps)
  qed
  show ?thesis
    unfolding consistent_def st ti using 1 2 by (simp add: flippedCards_fire)
qed

lemma consistent_step: "consistent w \<Longrightarrow> same_game e \<Longrightarrow> consistent (step w e)"
  by (cases e) (simp_all only: consistent_click consistent_timeout same_game.simps)

lemma consistent_run:
  "consistent w \<Longrightarrow> list_all same_game evs \<Longrightarrow> consistent (run w evs)"
  unfolding run_def
  by (induction evs arbitrary: w) (simp_all add: consistent_step del: step.simps)

lemma not_matched_unshuffled: "c \<in> set unshuffled \<Longrightarrow> \<not> isMatched c"
  by (auto simp: unshuffled_def new_card_def)

lemma distinct_sort_random:
  assumes "rearrangement perm (length unshuffled)"
  shows "distinct (map id' (sort_random perm unshuffled))"
  using map_id_sort_random [OF assms] rearrangement_distinct [OF assms] by simp

lemma consistent_start:
  assumes "rearrangement perm (length unshuffled)"
  shows "consistent (start perm)"
proof -
  have "set (sort_random perm unshuffled) = set unshuffled"
    using mset_sort_random [OF assms] by (metis set_mset_mset)
  then have "\<forall>c \<in> set (sort_random perm unshuffled). \<not> isMatched c"
    using not_matched_unshuffled by blast
  then show ?thesis
    using distinct_sort_random [OF assms]
    by (simp add: consistent_def start_def initializeGame_def)
qed

lemma run_keeps_matched:
  assumes "consistent w" "i < length (cards (state w))" "isMatched (cards (state w) ! i)"
    and "list_all same_game evs"
  shows "cards (state (run w evs)) ! i = cards (state w) ! i"
  using assms unfolding run_def
proof (induction evs arbitrary: w)
  case Nil
  then show ?case by simp
next
  case (Cons e evs)
  have e: "same_game e" and evs: "list_all same_game evs"
    using Cons.prems(4) by simp_all
  have k: "cards (state (step w e)) ! i = cards (state w) ! i"
    using Cons.prems(1-3) e by (rule step_keeps_matched)
  have "cards (state (foldl step (step w e) evs)) ! i = cards (state (step w e)) ! i"
    using Cons.prems(1-3) e evs k
    by (intro Cons.IH) (simp_all add: consistent_step length_cards_step del: step.simps)
  then show ?case
    using k by simp
qed

text \<open>
  As long as no new game is started, a card that is matched stays as it is, and so
  stays matched, through any further clicks and timers.
\<close>

lemma matched_stays_within_game:
  assumes "rearrangement perm (length unshuffled)"
    and "list_all same_game evs" and "list_all same_game evs'"
    and "i < length (cards (state (run (start perm) evs)))"
    and "state_of (cards (state (run (start perm) evs)) ! i) = matched"
  shows "cards (state (run (run (start perm) evs) evs')) ! i =
           cards (state (run (start perm) evs)) ! i \<and>
         state_of (cards (state (run (run (start perm) evs) evs')) ! i) = matched"
proof -
  have "consistent (run (start perm) evs)"
    using assms(1,2) by (intro consistent_run consistent_start)
  moreover have "isMatched (cards (state (run (start perm) evs)) ! i)"
    using assms(5) by (simp add: state_of_def split: if_splits)
  ultimately have "cards (state (run (run (start perm) evs) evs')) ! i =
           cards (state (run (start perm) evs)) ! i"
    using assms(3,4) by (intro run_keeps_matched)
  then show ?thesis
    using assms(5) by simp
qed

text \<open>
  C5. A card that is matched never becomes hidden or revealed again by a later click,
  match resolution or mismatch flip-back. The program breaks this. The button
  \<^verbatim>\<open>New Game\<close> cancels no timer, and the flip-back of a mismatch writes the cards it
  captured at the click over the board. Cards 0 and 1 are clicked, which is a mismatch
  and schedules the flip-back after 1000 ms; a new game is started; cards 2 and 10, a
  pair, are clicked, and their timer, due after 500 ms, fires and marks them matched;
  then the flip-back of the first game fires, and card 2, which was matched, is hidden.
\<close>

theorem stale_flip_back_hides_matched_card:
  "state_of (cards (state (run (start identity_perm)
      [Click 0, Click 1, NewGame identity_perm, Click 2, Click 10, Timeout 1])) ! 2) = matched \<and>
   id' (cards (state (run (start identity_perm)
      [Click 0, Click 1, NewGame identity_perm, Click 2, Click 10, Timeout 1])) ! 2) = 2 \<and>
   timers (run (start identity_perm)
      [Click 0, Click 1, NewGame identity_perm, Click 2, Click 10, Timeout 1]) =
     [MismatchTimer
        (cards (state (run (start identity_perm) [Click 0, Click 1]))) [0, 1]] \<and>
   state_of (cards (state (run (start identity_perm)
      [Click 0, Click 1, NewGame identity_perm, Click 2, Click 10, Timeout 1, Timeout 0])) ! 2) =
     hidden \<and>
   id' (cards (state (run (start identity_perm)
      [Click 0, Click 1, NewGame identity_perm, Click 2, Click 10, Timeout 1, Timeout 0])) ! 2) =
     2 \<and>
   matchedPairs (state (run (start identity_perm)
      [Click 0, Click 1, NewGame identity_perm, Click 2, Click 10, Timeout 1, Timeout 0])) = [7]"
  by (simp add: eval_game initializeGame_identity_perm)

subsection \<open>Ids stay distinct\<close>

lemma distinct_ids_step:
  assumes "distinct_ids w" "possible e"
  shows "distinct_ids (step w e)"
proof (cases e)
  case (Click cardId)
  show ?thesis
  proof (cases "accepted (state w) cardId")
    case True
    have m: "map id' (map (\<lambda>c. if id' c = cardId then c\<lparr>isFlipped := True\<rparr> else c)
        (cards (state w))) = map id' (cards (state w))"
      by simp
    have d: "distinct (map id' (cards (after (handleCardClick (state w) cardId))))"
      unfolding handleCardClick_accepted(1) [OF True] m
      using assms(1) by (simp add: distinct_ids_def)
    then have "\<forall>t \<in> set (scheduled (handleCardClick (state w) cardId)).
        distinct (map id' (snapshot t))"
      using handleCardClick_accepted(3) [OF True] by simp
    then show ?thesis
      using assms(1) d Click by (auto simp: distinct_ids_def Let_def)
  next
    case False
    then show ?thesis
      using assms(1) Click by (simp add: distinct_ids_def Let_def handleCardClick_ignored)
  qed
next
  case (Timeout k)
  show ?thesis
  proof (cases "k < length (timers w)")
    case True
    then have "timers w ! k \<in> set (timers w)"
      by simp
    then have "distinct (map id' (snapshot (timers w ! k)))"
      using assms(1) by (simp add: distinct_ids_def)
    moreover have "map id' (cards (fire (timers w ! k) (state w))) =
        map id' (snapshot (timers w ! k))"
      by (cases "timers w ! k") (auto simp: Let_def)
    moreover have "set (take k (timers w) @ drop (Suc k) (timers w)) \<subseteq> set (timers w)"
      using set_take_subset set_drop_subset by fastforce
    ultimately show ?thesis
      using assms(1) Timeout True by (auto simp: distinct_ids_def simp del: fire.simps)
  next
    case False
    then show ?thesis
      using assms(1) Timeout by simp
  qed
next
  case (NewGame perm)
  then show ?thesis
    using assms distinct_sort_random [of perm]
    by (simp add: distinct_ids_def initializeGame_def)
qed

text \<open>
  Every state the application reaches from its start, new games included, has distinct
  ids on the board.
\<close>

lemma distinct_ids_run:
  "distinct_ids w \<Longrightarrow> list_all possible evs \<Longrightarrow> distinct_ids (run w evs)"
  unfolding run_def
  by (induction evs arbitrary: w) (simp_all add: distinct_ids_step del: step.simps)

lemma distinct_ids_start:
  "rearrangement perm (length unshuffled) \<Longrightarrow> distinct_ids (start perm)"
  using distinct_sort_random [of perm]
  by (simp add: distinct_ids_def start_def initializeGame_def)

section \<open>Resolving a pair\<close>

lemma accepted_hidden:
  assumes "find (\<lambda>c. id' c = cardId) (cards g) = Some card'" "state_of card' = hidden"
    "length (flippedCards g) \<noteq> 2" "pokemonId card' \<notin> set (matchedPairs g)"
  shows "accepted g cardId"
  using assms by (simp add: accepted_def state_of_def split: if_splits)

lemma find_flipped:
  "find (\<lambda>c. id' c = k) (map (\<lambda>c. if id' c = j then c\<lparr>isFlipped := True\<rparr> else c) cs) =
     map_option (\<lambda>c. if id' c = j then c\<lparr>isFlipped := True\<rparr> else c)
       (find (\<lambda>c. id' c = k) cs)"
  by (rule find_map_preserving) simp


lemma click_second:
  assumes "flippedCards (state w) = [a]"
    and "find (\<lambda>c. id' c = a) (cards (state w)) = Some firstCard"
    and "find (\<lambda>c. id' c = b) (cards (state w)) = Some secondCard"
    and "state_of secondCard = hidden"
    and "pokemonId secondCard \<notin> set (matchedPairs (state w))"
  shows "step w (Click b) =
     (if pokemonId firstCard = pokemonId secondCard then
        \<lparr>state = (state w)
           \<lparr>flippedCards := [a, b],
            cards := map (\<lambda>c. if id' c = b then c\<lparr>isFlipped := True\<rparr> else c) (cards (state w)),
            tries := tries (state w) + 1,
            matchedPairs := matchedPairs (state w) @ [pokemonId firstCard],
            score := score (state w) + 10\<rparr>,
         timers = timers w @
           [MatchTimer (map (\<lambda>c. if id' c = b then c\<lparr>isFlipped := True\<rparr> else c) (cards (state w)))
              (pokemonId firstCard) (matchedPairs (state w) @ [pokemonId firstCard])]\<rparr>
      else
        \<lparr>state = (state w)
           \<lparr>flippedCards := [a, b],
            cards := map (\<lambda>c. if id' c = b then c\<lparr>isFlipped := True\<rparr> else c) (cards (state w)),
            tries := tries (state w) + 1\<rparr>,
         timers = timers w @
           [MismatchTimer (map (\<lambda>c. if id' c = b then c\<lparr>isFlipped := True\<rparr> else c) (cards (state w)))
              [a, b]]\<rparr>)"
proof -
  have i: "id' secondCard = b"
    using find_SomeD [OF assms(3)] by simp
  show ?thesis
    using assms i
    by (simp add: handleCardClick_def Let_def state_of_def find_flipped split: if_splits)
qed

text \<open>
  C2, as stated: the click on the second card of a pair leaves both cards matched. In a
  new game whose cards 0 and 8 show the same symbol, after the clicks on 0 and on 8 card
  0 is revealed, not matched, and the game counts one matched pair.
\<close>

theorem match_is_delayed_counterexample:
  "pokemonId (cards (state (start identity_perm)) ! 0) =
     pokemonId (cards (state (start identity_perm)) ! 8) \<and>
   state_of (cards (state (run (start identity_perm) [Click 0, Click 8])) ! 0) = revealed \<and>
   state_of (cards (state (run (start identity_perm) [Click 0, Click 8])) ! 8) = revealed \<and>
   matchedPairs (state (run (start identity_perm) [Click 0, Click 8])) = [1]"
  by (simp add: eval_game)

text \<open>
  C2, amended. The click on a hidden second card whose symbol is that of the revealed
  pending card turns the second card face up, so that both cards are revealed and
  pending, adds 10 to the score, 1 to the tries and the symbol to the matched pairs at
  once, and schedules a timer; no card becomes matched and the game is not over by the
  click. When the timer fires, the cards of the symbol, these two among them, are
  matched, no card is pending, and the game is over if the matched pairs are as many as
  the symbols.
\<close>

theorem match_resolution:
  assumes "timers w = []" and "flippedCards (state w) = [a]"
    and "distinct (map id' (cards (state w)))"
    and "find (\<lambda>c. id' c = a) (cards (state w)) = Some firstCard"
    and "find (\<lambda>c. id' c = b) (cards (state w)) = Some secondCard"
    and "state_of firstCard = revealed"
    and "state_of secondCard = hidden"
    and "pokemonId secondCard \<notin> set (matchedPairs (state w))"
    and "pokemonId firstCard = pokemonId secondCard"
  shows "cards (state (run w [Click b])) =
           map (\<lambda>c. if id' c = b then c\<lparr>isFlipped := True\<rparr> else c) (cards (state w)) \<and>
         (\<forall>c \<in> set (cards (state (run w [Click b]))).
            id' c = a \<or> id' c = b \<longrightarrow> state_of c = revealed) \<and>
         flippedCards (state (run w [Click b])) = [a, b] \<and>
         score (state (run w [Click b])) = score (state w) + 10 \<and>
         tries (state (run w [Click b])) = tries (state w) + 1 \<and>
         matchedPairs (state (run w [Click b])) = matchedPairs (state w) @ [pokemonId firstCard] \<and>
         map isMatched (cards (state (run w [Click b]))) = map isMatched (cards (state w)) \<and>
         gameOver (state (run w [Click b])) = gameOver (state w) \<and>
         length (timers (run w [Click b])) = 1 \<and>
         cards (state (run w [Click b, Timeout 0])) =
           map (\<lambda>c. if pokemonId c = pokemonId firstCard
                     then c\<lparr>isMatched := True, isFlipped := True\<rparr> else c)
             (cards (state (run w [Click b]))) \<and>
         (\<forall>c \<in> set (cards (state (run w [Click b, Timeout 0]))).
            pokemonId c = pokemonId firstCard \<or> id' c = a \<or> id' c = b \<longrightarrow>
            state_of c = matched) \<and>
         flippedCards (state (run w [Click b, Timeout 0])) = [] \<and>
         (gameOver (state (run w [Click b, Timeout 0])) \<longleftrightarrow>
            gameOver (state w) \<or> length (matchedPairs (state w)) + 1 = length POKEMON_IDS) \<and>
         score (state (run w [Click b, Timeout 0])) = score (state w) + 10 \<and>
         tries (state (run w [Click b, Timeout 0])) = tries (state w) + 1"
proof -
  let ?cs = "cards (state w)"
  let ?u = "map (\<lambda>c. if id' c = b then c\<lparr>isFlipped := True\<rparr> else c) ?cs"
  let ?m = "matchedPairs (state w) @ [pokemonId firstCard]"
  let ?g = "(state w)\<lparr>flippedCards := [a, b], cards := ?u, tries := tries (state w) + 1,
              matchedPairs := ?m, score := score (state w) + 10\<rparr>"
  let ?t = "MatchTimer ?u (pokemonId firstCard) ?m"
  have c: "run w [Click b] = \<lparr>state = ?g, timers = [?t]\<rparr>"
    using click_second [OF assms(2) assms(4) assms(5) assms(7) assms(8)] assms(1,9)
    by (simp add: run_def del: step.simps)
  have "run w [Click b, Timeout 0] = step (run w [Click b]) (Timeout 0)"
    by (simp add: run_def del: step.simps)
  then have t: "run w [Click b, Timeout 0] = \<lparr>state = fire ?t ?g, timers = []\<rparr>"
    by (simp add: c)
  have own: "\<And>c. c \<in> set ?cs \<Longrightarrow> id' c = a \<Longrightarrow> c = firstCard"
    "\<And>c. c \<in> set ?cs \<Longrightarrow> id' c = b \<Longrightarrow> c = secondCard"
    using find_distinct_key [OF assms(3) assms(4)] find_distinct_key [OF assms(3) assms(5)]
    by blast+
  have ab: "a \<noteq> b"
    using assms(4-7) by auto
  have f: "isFlipped firstCard" "\<not> isMatched firstCard" "\<not> isMatched secondCard"
    using assms(6,7) by (simp_all add: state_of_def split: if_splits)
  have ps: "\<And>c. c \<in> set ?cs \<Longrightarrow> id' c = a \<or> id' c = b \<Longrightarrow>
      pokemonId c = pokemonId firstCard"
    using own assms(9) by auto
  have 0: "\<forall>c \<in> set ?u. id' c = a \<or> id' c = b \<longrightarrow> state_of c = revealed"
    using own ab f by (auto simp: state_of_def)
  have 1: "map isMatched ?u = map isMatched ?cs"
    by simp
  have 2: "cards (fire ?t ?g) =
      map (\<lambda>c. if pokemonId c = pokemonId firstCard
                then c\<lparr>isMatched := True, isFlipped := True\<rparr> else c) ?u"
    by (simp add: Let_def)
  have 3: "\<forall>c \<in> set (cards (fire ?t ?g)).
      pokemonId c = pokemonId firstCard \<or> id' c = a \<or> id' c = b \<longrightarrow> state_of c = matched"
    unfolding 2 using ps by (auto simp: state_of_def)
  have 4: "gameOver (fire ?t ?g) \<longleftrightarrow>
             gameOver (state w) \<or> length (matchedPairs (state w)) + 1 = length POKEMON_IDS"
    by (simp add: Let_def)
  have 5: "score (fire ?t ?g) = score (state w) + 10"
    and 6: "tries (fire ?t ?g) = tries (state w) + 1"
    by (simp_all add: Let_def)
  have A: "cards (state (run w [Click b])) = ?u"
    and B: "\<forall>c \<in> set (cards (state (run w [Click b]))).
              id' c = a \<or> id' c = b \<longrightarrow> state_of c = revealed"
    and C: "flippedCards (state (run w [Click b])) = [a, b]"
      "score (state (run w [Click b])) = score (state w) + 10"
      "tries (state (run w [Click b])) = tries (state w) + 1"
      "matchedPairs (state (run w [Click b])) = ?m"
      "map isMatched (cards (state (run w [Click b]))) = map isMatched ?cs"
      "gameOver (state (run w [Click b])) = gameOver (state w)"
      "length (timers (run w [Click b])) = 1"
    unfolding c using 0 1 by simp_all
  have D: "cards (state (run w [Click b, Timeout 0])) =
      map (\<lambda>c. if pokemonId c = pokemonId firstCard
                then c\<lparr>isMatched := True, isFlipped := True\<rparr> else c)
        (cards (state (run w [Click b])))"
    unfolding t A using 2 by simp
  have E: "\<forall>c \<in> set (cards (state (run w [Click b, Timeout 0]))).
      pokemonId c = pokemonId firstCard \<or> id' c = a \<or> id' c = b \<longrightarrow> state_of c = matched"
    unfolding t using 3 by simp
  have F: "flippedCards (state (run w [Click b, Timeout 0])) = []"
    "gameOver (state (run w [Click b, Timeout 0])) \<longleftrightarrow>
       gameOver (state w) \<or> length (matchedPairs (state w)) + 1 = length POKEMON_IDS"
    "score (state (run w [Click b, Timeout 0])) = score (state w) + 10"
    "tries (state (run w [Click b, Timeout 0])) = tries (state w) + 1"
    unfolding t using 4 5 6 by (simp_all add: flippedCards_fire del: fire.simps)
  show ?thesis
    using A B C D E F by blast
qed

theorem match_resolution_witness:
  "flippedCards (state (run (start identity_perm) [Click 0])) = [0] \<and>
   state_of (cards (state (run (run (start identity_perm) [Click 0]) [Click 8])) ! 0) =
     revealed \<and>
   state_of (cards (state (run (run (start identity_perm) [Click 0]) [Click 8])) ! 8) =
     revealed \<and>
   score (state (run (run (start identity_perm) [Click 0]) [Click 8])) = 10 \<and>
   tries (state (run (run (start identity_perm) [Click 0]) [Click 8])) = 1 \<and>
   matchedPairs (state (run (run (start identity_perm) [Click 0]) [Click 8])) = [1] \<and>
   \<not> gameOver (state (run (run (start identity_perm) [Click 0]) [Click 8, Timeout 0])) \<and>
   flippedCards (state (run (run (start identity_perm) [Click 0]) [Click 8, Timeout 0])) = [] \<and>
   state_of (cards (state (run (run (start identity_perm) [Click 0]) [Click 8, Timeout 0])) ! 0) =
     matched \<and>
   state_of (cards (state (run (run (start identity_perm) [Click 0]) [Click 8, Timeout 0])) ! 8) =
     matched"
proof -
  let ?w = "run (start identity_perm) [Click 0]"
  let ?c0 = "\<lparr>id' = 0, pokemonId = 1, image = image_url 1, isFlipped = True, isMatched = False\<rparr>"
  let ?c8 = "\<lparr>id' = 8, pokemonId = 1, image = image_url 1, isFlipped = False, isMatched = False\<rparr>"
  have 1: "timers ?w = []" and 2: "flippedCards (state ?w) = [0]"
    and 3: "distinct (map id' (cards (state ?w)))"
    by (simp_all add: eval_game)
  have 4: "find (\<lambda>c. id' c = 0) (cards (state ?w)) = Some ?c0"
    and 5: "find (\<lambda>c. id' c = 8) (cards (state ?w)) = Some ?c8"
    by (simp_all add: eval_game)
  have 6: "state_of ?c0 = revealed" and 7: "state_of ?c8 = hidden"
    and 8: "pokemonId ?c8 \<notin> set (matchedPairs (state ?w))"
    and 9: "pokemonId ?c0 = pokemonId ?c8"
    by (simp_all add: eval_game)
  have s: "score (state ?w) = 0" "tries (state ?w) = 0" "matchedPairs (state ?w) = []"
    "\<not> gameOver (state ?w)"
    by (simp_all add: eval_game)
  note r = match_resolution [OF 1 2 3 4 5 6 7 8 9]
  have "score (state (run ?w [Click 8])) = 10"
    and "tries (state (run ?w [Click 8])) = 1"
    and "matchedPairs (state (run ?w [Click 8])) = [1]"
    and "\<not> gameOver (state (run ?w [Click 8, Timeout 0]))"
    and "flippedCards (state (run ?w [Click 8, Timeout 0])) = []"
    using r s by (simp_all add: POKEMON_IDS_def)
  moreover have
    "state_of (cards (state (run ?w [Click 8])) ! 0) = revealed"
    "state_of (cards (state (run ?w [Click 8])) ! 8) = revealed"
    "state_of (cards (state (run ?w [Click 8, Timeout 0])) ! 0) = matched"
    "state_of (cards (state (run ?w [Click 8, Timeout 0])) ! 8) = matched"
    by (simp_all add: eval_game)
  ultimately show ?thesis
    using 2 by blast
qed



end
